theory Spec2Isabelle
  imports Complex_Main "HOL-Library.Multiset"
begin

section \<open>JavaScript values used by the quiz runner\<close>

text \<open>
  Strings are lists of code units (those below 256); the value \<open>undefined\<close> of a property that an object
  does not have is \<open>None\<close>. The result of \<open>parseInt\<close> is \<open>None\<close> for NaN and the
  mathematical integer otherwise (the two agree with the doubles of the engine up to
  \<open>2 ^ 53\<close>; truthiness and clamping do not depend on the rounding beyond).
\<close>

definition DEFAULT_POINTS :: int where
  "DEFAULT_POINTS = 10"

definition is_js_space :: "char \<Rightarrow> bool" where
  "is_js_space c = ((of_char c :: nat) \<in> {9, 10, 11, 12, 13, 32, 160})"

definition is_digit :: "char \<Rightarrow> bool" where
  "is_digit c = (48 \<le> (of_char c :: nat) \<and> (of_char c :: nat) \<le> 57)"

definition digit_val :: "char \<Rightarrow> int" where
  "digit_val c = int (of_char c) - 48"

definition digits_val :: "string \<Rightarrow> int" where
  "digits_val ds = foldl (\<lambda>acc c. acc * 10 + digit_val c) 0 ds"

text \<open>
  \<open>parseInt(x, 10)\<close>: the argument is turned into a string (\<open>undefined\<close> becomes the
  word "undefined", which has no digit), leading white space is dropped, one sign is
  read, then the longest run of decimal digits; no digit gives NaN.
\<close>

definition parseInt10 :: "string option \<Rightarrow> int option" where
  "parseInt10 x =
     (case x of
        None \<Rightarrow> None
      | Some s \<Rightarrow>
          (let t = dropWhile is_js_space s;
               neg = (t \<noteq> [] \<and> hd t = CHR ''-'');
               u = (if t \<noteq> [] \<and> (hd t = CHR ''-'' \<or> hd t = CHR ''+'') then tl t else t);
               ds = takeWhile is_digit u
           in if ds = [] then None
              else Some ((if neg then - 1 else 1) * digits_val ds)))"

text \<open>\<open>n || d\<close> on a number: NaN and zero are falsy.\<close>

definition or_num :: "int option \<Rightarrow> int \<Rightarrow> int" where
  "or_num n d = (case n of None \<Rightarrow> d | Some v \<Rightarrow> if v = 0 then d else v)"

text \<open>\<open>s || ""\<close> on a string property: \<open>undefined\<close> and the empty string are falsy.\<close>

definition or_empty :: "string option \<Rightarrow> string" where
  "or_empty s = (case s of None \<Rightarrow> [] | Some v \<Rightarrow> v)"

section \<open>Question bank loader\<close>

type_synonym csv_record = "string \<rightharpoonup> string"

record question =
  qtext :: string
  options :: "string list"
  correctIndex :: int
  points :: int

text \<open>The callback of \<open>records.map\<close> in \<open>csvToQuestions\<close>.\<close>

definition mkQuestion :: "csv_record \<Rightarrow> question" where
  "mkQuestion r =
     (let correctIndex = max 0 (min 3 (or_num (parseInt10 (r ''correctIndex'')) 1 - 1));
          points = or_num (parseInt10 (r ''points'')) DEFAULT_POINTS
      in \<lparr> qtext = or_empty (r ''question''),
           options = map or_empty [r ''option1'', r ''option2'', r ''option3'', r ''option4''],
           correctIndex = correctIndex,
           points = points \<rparr>)"

text \<open>The callback of \<open>.filter\<close> in \<open>csvToQuestions\<close>.\<close>

definition isValid :: "question \<Rightarrow> bool" where
  "isValid q = (qtext q \<noteq> [] \<and> length (options q) = 4 \<and> list_all (\<lambda>opt. opt \<noteq> []) (options q))"

definition csvToQuestions :: "csv_record list \<Rightarrow> question list" where
  "csvToQuestions records = filter isValid (map mkQuestion records)"

subsection \<open>The loader as the specification words it\<close>

definition nonEmptyString :: "string option \<Rightarrow> bool" where
  "nonEmptyString x = (case x of None \<Rightarrow> False | Some s \<Rightarrow> s \<noteq> [])"

definition spec_keeps :: "csv_record \<Rightarrow> bool" where
  "spec_keeps r =
     (nonEmptyString (r ''question'') \<and> nonEmptyString (r ''option1'') \<and>
      nonEmptyString (r ''option2'') \<and> nonEmptyString (r ''option3'') \<and>
      nonEmptyString (r ''option4''))"

text \<open>Parsed as an integer, 1 when missing or non-numeric, clamped into 1..4, then 0-based.\<close>

definition spec_correctIndex :: "string option \<Rightarrow> int" where
  "spec_correctIndex x =
     max 1 (min 4 (case parseInt10 x of None \<Rightarrow> 1 | Some n \<Rightarrow> n)) - 1"

text \<open>
  The object that \<open>parseCSV\<close> builds from the header names and the columns of one
  line: one property per header, the empty string where the line has no such column.
\<close>

definition csv_object :: "string list \<Rightarrow> string list \<Rightarrow> csv_record" where
  "csv_object headers cols =
     foldl (\<lambda>obj (i, h). obj(h \<mapsto> (if i < length cols then cols ! i else [])))
       Map.empty (enumerate 0 headers)"

definition csv_row :: "string list \<Rightarrow> csv_record" where
  "csv_row cols =
     csv_object [''question'', ''option1'', ''option2'', ''option3'', ''option4'',
                 ''correctIndex'', ''points''] cols"

section \<open>Shuffle\<close>

text \<open>
  Arrays are objects of a store, addressed by their position in it, so that the copy made
  by \<open>[...arr]\<close> and the argument are different objects. An array element is \<open>None\<close>
  when it is \<open>undefined\<close> (or a hole). Reading outside the array gives \<open>undefined\<close>;
  writing beyond its end extends it, and writing at a negative index adds a property that
  is no element.
\<close>

type_synonym 'a jsarray = "'a option list"

type_synonym 'a store = "'a jsarray list"

definition js_get :: "'a jsarray \<Rightarrow> int \<Rightarrow> 'a option" where
  "js_get a j = (if 0 \<le> j \<and> j < int (length a) then a ! nat j else None)"

definition js_set :: "'a jsarray \<Rightarrow> int \<Rightarrow> 'a option \<Rightarrow> 'a jsarray" where
  "js_set a j v =
     (if j < 0 then a
      else if j < int (length a) then a[nat j := v]
      else a @ replicate (nat j - length a) None @ [v])"

text \<open>\<open>[a[i], a[j]] = [a[j], a[i]]\<close>: both reads come first, then the two writes.\<close>

definition swap_elems :: "'a jsarray \<Rightarrow> int \<Rightarrow> int \<Rightarrow> 'a jsarray" where
  "swap_elems a i j = (let x = js_get a j; y = js_get a i in js_set (js_set a i x) j y)"

definition swap_at :: "'a store \<Rightarrow> nat \<Rightarrow> int \<Rightarrow> int \<Rightarrow> 'a store" where
  "swap_at h a i j = h[a := swap_elems (h ! a) i j]"

text \<open>
  The loop of \<open>shuffleArray\<close>, from \<open>i\<close> down to 1, on the array at address \<open>a\<close>.
  \<open>random k\<close> is the value of the \<open>k\<close>-th call of \<open>Math.random()\<close>.
\<close>

fun shuffle_loop :: "(nat \<Rightarrow> real) \<Rightarrow> nat \<Rightarrow> nat \<Rightarrow> 'a store \<Rightarrow> nat \<Rightarrow> 'a store" where
  "shuffle_loop random k a h 0 = h"
| "shuffle_loop random k a h (Suc n) =
     (let i = int (Suc n);
          j = \<lfloor>random k * real_of_int (i + 1)\<rfloor>
      in shuffle_loop random (Suc k) a (swap_at h a i j) n)"

text \<open>
  \<open>shuffleArray(arr)\<close>, with \<open>arr\<close> the address of an array of the store
  (\<open>arr < length h\<close>): it returns the store and the address of the new array.
\<close>

definition shuffleArray :: "(nat \<Rightarrow> real) \<Rightarrow> 'a store \<Rightarrow> nat \<Rightarrow> 'a store \<times> nat" where
  "shuffleArray random h arr =
     (let a = length h;
          h1 = h @ [h ! arr]
      in (shuffle_loop random 0 a h1 (length (h1 ! a) - 1), a))"

text \<open>
  What \<open>Math.random\<close> promises: every value is in the half-open interval from 0 to 1.
  The product with \<open>i + 1\<close> is taken in the reals; the rounded product of the engine
  has a floor within the same bounds, from 0 to \<open>i\<close>.
\<close>

definition unit_interval :: "(nat \<Rightarrow> real) \<Rightarrow> bool" where
  "unit_interval random = (\<forall>k. 0 \<le> random k \<and> random k < 1)"

section \<open>Session state\<close>

datatype jsnum = NaN | Num int

record team =
  team_id :: string
  team_name :: string

record state =
  questions :: "question list"
  currentIndex :: int
  teams :: "team list"
  scores :: "string \<rightharpoonup> jsnum"
  answeredCount :: "string \<rightharpoonup> int"
  correctCount :: "string \<rightharpoonup> int"
  selectedOptionIndex :: "nat option"
  selectedTeamId :: "string option"
  quizStarted :: bool

record row =
  row_id :: string
  row_name :: string
  score :: int
  answered :: int
  correct :: int

text \<open>
  The page is the state object together with the parts of the document that decide which
  handler can run: the option buttons of the current question (their number and whether
  they are disabled), the team buttons (the team id each carries), the \<open>disabled\<close>
  property of the submit button, and the rows of the standings table.
\<close>

record page = state +
  optionButtons :: nat
  optionsDisabled :: bool
  teamButtons :: "string list"
  submitDisabled :: bool
  standingsBody :: "row list"

datatype error = TypeError

text \<open>A handler that throws leaves the state as it was at the throw: \<open>Inl (e, p)\<close>.\<close>

type_synonym outcome = "(error \<times> page) + page"

definition settled :: "outcome \<Rightarrow> page" where
  "settled r = (case r of Inl (e, p) \<Rightarrow> p | Inr p \<Rightarrow> p)"

definition truthy_str :: "string option \<Rightarrow> bool" where
  "truthy_str x = (case x of None \<Rightarrow> False | Some s \<Rightarrow> s \<noteq> [])"

text \<open>\<open>x || 0\<close> and \<open>x += n\<close> on a score that may be \<open>undefined\<close> or NaN.\<close>

definition num_or0 :: "jsnum option \<Rightarrow> int" where
  "num_or0 x = (case x of Some (Num n) \<Rightarrow> n | _ \<Rightarrow> 0)"

definition js_add :: "jsnum option \<Rightarrow> int \<Rightarrow> jsnum" where
  "js_add x n = (case x of Some (Num m) \<Rightarrow> Num (m + n) | _ \<Rightarrow> NaN)"

definition js_trim :: "string \<Rightarrow> string" where
  "js_trim s = rev (dropWhile is_js_space (rev (dropWhile is_js_space s)))"

text \<open>The decimal numeral that a template literal writes for an array index.\<close>

definition digit_char :: "nat \<Rightarrow> char" where
  "digit_char d = char_of (of_char CHR ''0'' + d)"

fun decimal :: "nat \<Rightarrow> string" where
  "decimal n = (if 10 \<le> n then decimal (n div 10) @ [digit_char (n mod 10)] else [digit_char n])"

declare decimal.simps [simp del]

section \<open>Standings\<close>

definition mkRow :: "page \<Rightarrow> team \<Rightarrow> row" where
  "mkRow p t =
     (let tid = team_id t
      in \<lparr> row_id = tid,
           row_name = team_name t,
           score = num_or0 (scores p tid),
           answered = or_num (answeredCount p tid) 0,
           correct = or_num (correctCount p tid) 0 \<rparr>)"

text \<open>The comparator \<open>(a, b) => b.score - a.score\<close>.\<close>

definition compareRows :: "row \<Rightarrow> row \<Rightarrow> int" where
  "compareRows a b = score b - score a"

text \<open>
  \<open>Array.prototype.sort\<close> is stable (ECMAScript 2019): with a consistent comparator its
  result is the one sorted arrangement that keeps the order of elements comparing equal.
  Insertion from the right computes that arrangement.
\<close>

fun insert_by :: "('a \<Rightarrow> 'a \<Rightarrow> int) \<Rightarrow> 'a \<Rightarrow> 'a list \<Rightarrow> 'a list" where
  "insert_by cmp x [] = [x]"
| "insert_by cmp x (y # ys) = (if cmp x y \<le> 0 then x # y # ys else y # insert_by cmp x ys)"

definition js_sort :: "('a \<Rightarrow> 'a \<Rightarrow> int) \<Rightarrow> 'a list \<Rightarrow> 'a list" where
  "js_sort cmp xs = foldr (insert_by cmp) xs []"

definition standings :: "page \<Rightarrow> row list" where
  "standings p = js_sort compareRows (map (mkRow p) (teams p))"

definition renderStandings :: "page \<Rightarrow> page" where
  "renderStandings p = p\<lparr>standingsBody := standings p\<rparr>"

section \<open>Question flow\<close>

text \<open>
  \<open>goToNextQuestion\<close> is modelled as the function declared in \<open>script.js\<close>; the
  statements that follow its closing brace there repeat its tail outside any function and
  belong to no handler.
\<close>

definition clearOptionsUI :: "page \<Rightarrow> page" where
  "clearOptionsUI p = p\<lparr>optionButtons := 0\<rparr>"

definition endQuiz :: "page \<Rightarrow> page" where
  "endQuiz p = clearOptionsUI p"

text \<open>\<open>renderQuestion\<close> reads \<open>q.text\<close>, which throws when there is no current question.\<close>

definition renderQuestion :: "page \<Rightarrow> outcome" where
  "renderQuestion p =
     (if 0 \<le> currentIndex p \<and> currentIndex p < int (length (questions p))
      then (let q = questions p ! nat (currentIndex p)
            in Inr (p\<lparr>optionButtons := length (options q), optionsDisabled := False\<rparr>))
      else Inl (TypeError, p))"

definition goToNextQuestion :: "page \<Rightarrow> outcome" where
  "goToNextQuestion p =
     (if \<not> quizStarted p \<or> questions p = [] then Inr p
      else (let nextIndex = currentIndex p + 1
            in if nextIndex \<ge> int (length (questions p)) then Inr (endQuiz p)
               else renderQuestion
                      (p\<lparr>currentIndex := nextIndex,
                         selectedOptionIndex := None,
                         selectedTeamId := None,
                         submitDisabled := True\<rparr>)))"

definition checkSubmitButtonState :: "page \<Rightarrow> page" where
  "checkSubmitButtonState p =
     (if selectedOptionIndex p \<noteq> None \<and> truthy_str (selectedTeamId p)
      then p\<lparr>submitDisabled := False\<rparr>
      else p\<lparr>submitDisabled := True\<rparr>)"

section \<open>Scoring\<close>

definition confirmScore :: "page \<Rightarrow> outcome" where
  "confirmScore p =
     (if selectedOptionIndex p = None \<or> \<not> truthy_str (selectedTeamId p) then Inr p
      else if \<not> (0 \<le> currentIndex p \<and> currentIndex p < int (length (questions p)))
      then Inl (TypeError, p)
      else (let q = questions p ! nat (currentIndex p);
                isCorrect = (int (the (selectedOptionIndex p)) = correctIndex q)
            in case find (\<lambda>t. Some (team_id t) = selectedTeamId p) (teams p) of
                 None \<Rightarrow> Inl (TypeError, p)
               | Some team \<Rightarrow>
                   (let teamId = team_id team;
                        p1 = p\<lparr>answeredCount :=
                                 (answeredCount p)(teamId \<mapsto> or_num (answeredCount p teamId) 0 + 1)\<rparr>;
                        p2 = (if isCorrect
                              then p1\<lparr>scores :=
                                        (scores p1)(teamId \<mapsto>
                                           js_add (scores p1 teamId) (or_num (Some (points q)) DEFAULT_POINTS)),
                                      correctCount :=
                                        (correctCount p1)(teamId \<mapsto> or_num (correctCount p1 teamId) 0 + 1)\<rparr>
                              else p1)
                    in Inr (renderStandings (p2\<lparr>optionsDisabled := True, submitDisabled := True\<rparr>)))))"

text \<open>
  \<open>maybeScore\<close>, which the team buttons of the earlier revision of the page call: the
  same scoring, on a page that has no submit button.
\<close>

definition maybeScore :: "page \<Rightarrow> outcome" where
  "maybeScore p =
     (if selectedOptionIndex p = None \<or> \<not> truthy_str (selectedTeamId p) then Inr p
      else if \<not> (0 \<le> currentIndex p \<and> currentIndex p < int (length (questions p)))
      then Inl (TypeError, p)
      else (let q = questions p ! nat (currentIndex p);
                isCorrect = (int (the (selectedOptionIndex p)) = correctIndex q)
            in case find (\<lambda>t. Some (team_id t) = selectedTeamId p) (teams p) of
                 None \<Rightarrow> Inl (TypeError, p)
               | Some team \<Rightarrow>
                   (let teamId = team_id team;
                        p1 = p\<lparr>answeredCount :=
                                 (answeredCount p)(teamId \<mapsto> or_num (answeredCount p teamId) 0 + 1)\<rparr>;
                        p2 = (if isCorrect
                              then p1\<lparr>scores :=
                                        (scores p1)(teamId \<mapsto>
                                           js_add (scores p1 teamId) (or_num (Some (points q)) DEFAULT_POINTS)),
                                      correctCount :=
                                        (correctCount p1)(teamId \<mapsto> or_num (correctCount p1 teamId) 0 + 1)\<rparr>
                              else p1)
                    in Inr (renderStandings (p2\<lparr>optionsDisabled := True\<rparr>)))))"

section \<open>Handlers\<close>

definition buildTeamButtons :: "page \<Rightarrow> page" where
  "buildTeamButtons p = p\<lparr>teamButtons := map team_id (teams p)\<rparr>"

text \<open>The click handler of the start button; \<open>inputs\<close> are the values of the team fields.\<close>

definition startQuiz :: "string list \<Rightarrow> page \<Rightarrow> outcome" where
  "startQuiz inputs p =
     (let names = filter (\<lambda>n. n \<noteq> []) (map js_trim inputs)
      in if names = [] then Inr p
         else if questions p = [] then Inr p
         else (let ts = map (\<lambda>(index, name).
                              \<lparr> team_id = ''team-'' @ decimal index, team_name = name \<rparr>)
                          (enumerate 0 names);
                   p1 = p\<lparr>teams := ts,
                          scores := foldl (\<lambda>m t. m(team_id t \<mapsto> Num 0)) Map.empty ts,
                          answeredCount := foldl (\<lambda>m t. m(team_id t \<mapsto> 0)) Map.empty ts,
                          correctCount := foldl (\<lambda>m t. m(team_id t \<mapsto> 0)) Map.empty ts,
                          quizStarted := True,
                          currentIndex := - 1\<rparr>
               in case goToNextQuestion p1 of
                    Inl e \<Rightarrow> Inl e
                  | Inr p2 \<Rightarrow> Inr (renderStandings (buildTeamButtons p2))))"

text \<open>The click handler of the reset button; \<open>confirmed\<close> is the answer to the dialog.\<close>

definition resetQuiz :: "bool \<Rightarrow> page \<Rightarrow> page" where
  "resetQuiz confirmed p =
     (if \<not> confirmed then p
      else (let p1 = p\<lparr>currentIndex := - 1,
                          selectedOptionIndex := None,
                          selectedTeamId := None,
                          quizStarted := False\<rparr>;
                p2 = clearOptionsUI p1
            in p2\<lparr>standingsBody := []\<rparr>))"

definition optionClick :: "nat \<Rightarrow> page \<Rightarrow> page" where
  "optionClick i p =
     (if \<not> quizStarted p then p
      else checkSubmitButtonState (p\<lparr>selectedOptionIndex := Some i\<rparr>))"

definition teamClick :: "string \<Rightarrow> page \<Rightarrow> page" where
  "teamClick tid p = checkSubmitButtonState (p\<lparr>selectedTeamId := Some tid\<rparr>)"

text \<open>The team button of the earlier revision scores at once.\<close>

definition teamClick_maybeScore :: "string \<Rightarrow> page \<Rightarrow> outcome" where
  "teamClick_maybeScore tid p = maybeScore (p\<lparr>selectedTeamId := Some tid\<rparr>)"

text \<open>
  The events of the page. A click reaches its handler only when the button exists and is
  not disabled; an exception ends the handler and the page goes on with the state as the
  handler left it.
\<close>

datatype event =
    StartClick "string list"
  | ResetClick bool
  | NextClick
  | OptionClick nat
  | TeamClick string
  | SubmitClick

fun step :: "event \<Rightarrow> page \<Rightarrow> page" where
  "step (StartClick inputs) p = settled (startQuiz inputs p)"
| "step (ResetClick confirmed) p = resetQuiz confirmed p"
| "step NextClick p = settled (goToNextQuestion p)"
| "step (OptionClick i) p =
     (if i < optionButtons p \<and> \<not> optionsDisabled p then optionClick i p else p)"
| "step (TeamClick tid) p = (if tid \<in> set (teamButtons p) then teamClick tid p else p)"
| "step SubmitClick p = (if submitDisabled p then p else settled (confirmScore p))"

definition run :: "event list \<Rightarrow> page \<Rightarrow> page" where
  "run es p = foldl (\<lambda>s e. step e s) p es"

text \<open>The operations of a quiz in progress: choose an option, choose a team, submit, advance.\<close>

fun inProgressOp :: "event \<Rightarrow> bool" where
  "inProgressOp (StartClick inputs) = False"
| "inProgressOp (ResetClick confirmed) = False"
| "inProgressOp NextClick = True"
| "inProgressOp (OptionClick i) = True"
| "inProgressOp (TeamClick tid) = True"
| "inProgressOp SubmitClick = True"

text \<open>
  The page once a question bank is loaded: the state object as declared, with the loaded
  questions; \<open>sd\<close> is the \<open>disabled\<close> property of the submit button in the document.
\<close>

definition loaded_page :: "question list \<Rightarrow> bool \<Rightarrow> page" where
  "loaded_page qs sd =
     \<lparr> questions = qs, currentIndex = - 1, teams = [],
       scores = Map.empty, answeredCount = Map.empty, correctCount = Map.empty,
       selectedOptionIndex = None, selectedTeamId = None, quizStarted = False,
       optionButtons = 0, optionsDisabled = False, teamButtons = [],
       submitDisabled = sd, standingsBody = [] \<rparr>"

text \<open>
  A page at rest, as a reset leaves it: not started, no option chosen, no option button
  to click. \<open>notStart\<close> holds of every event but a click on the start button.
\<close>

fun notStart :: "event \<Rightarrow> bool" where
  "notStart (StartClick inputs) = False"
| "notStart e = True"

definition idle :: "page \<Rightarrow> bool" where
  "idle p = (\<not> quizStarted p \<and> selectedOptionIndex p = None \<and> optionButtons p = 0)"

text \<open>Two questions of a bank, used where a property is evaluated on a concrete quiz.\<close>

definition sample_q1 :: question where
  "sample_q1 = \<lparr>qtext = ''Q1'', options = [''a'', ''b'', ''c'', ''d''], correctIndex = 0, points = 10\<rparr>"

definition sample_q2 :: question where
  "sample_q2 = \<lparr>qtext = ''Q2'', options = [''a'', ''b'', ''c'', ''d''], correctIndex = 3, points = 5\<rparr>"

text \<open>
  A quiz after its first answer: two teams, Red chosen with the correct option of the
  first question, the answer submitted.
\<close>

definition answered_once :: page where
  "answered_once =
     run [StartClick [''Red'', ''Blue''], OptionClick 0, TeamClick ''team-0'', SubmitClick]
       (loaded_page [sample_q1, sample_q2] True)"

section \<open>Loader: field coercion and validation\<close>

lemma isValid_mkQuestion: "isValid (mkQuestion r) = spec_keeps r"
  by (auto simp: isValid_def mkQuestion_def spec_keeps_def nonEmptyString_def or_empty_def
      split: option.splits)

lemma filter_map_mkQuestion:
  "filter isValid (map mkQuestion rs) = map mkQuestion (filter spec_keeps rs)"
  by (induction rs) (simp_all add: isValid_mkQuestion)

text \<open>
  C7. The validation filter keeps a record exactly when its question text and its four
  options are non-empty strings; every question of the produced sequence has a non-empty
  text and four non-empty options.
\<close>

theorem csvToQuestions_keeps_valid:
  "csvToQuestions rs = map mkQuestion (filter spec_keeps rs) \<and>
   (\<forall>q \<in> set (csvToQuestions rs).
      qtext q \<noteq> [] \<and> length (options q) = 4 \<and> (\<forall>opt \<in> set (options q). opt \<noteq> []))"
  by (auto simp: csvToQuestions_def filter_map_mkQuestion isValid_def list_all_iff
      simp flip: isValid_mkQuestion)


theorem csvToQuestions_keeps_valid_witness:
  "csvToQuestions [csv_row [''Q'', ''a'', ''b'', ''c'', ''d'', ''2'', ''5''],
                   csv_row [''Q'', ''a'', [], ''c'', ''d'', ''2'', ''5''],
                   csv_row [[], ''a'', ''b'', ''c'', ''d'', ''2'', ''5'']] =
     [\<lparr>qtext = ''Q'', options = [''a'', ''b'', ''c'', ''d''], correctIndex = 1, points = 5\<rparr>]"
  using csvToQuestions_keeps_valid
    [of "[csv_row [''Q'', ''a'', ''b'', ''c'', ''d'', ''2'', ''5''],
          csv_row [''Q'', ''a'', [], ''c'', ''d'', ''2'', ''5''],
          csv_row [[], ''a'', ''b'', ''c'', ''d'', ''2'', ''5'']]"]
  by (simp add: csv_row_def csv_object_def mkQuestion_def spec_keeps_def nonEmptyString_def or_empty_def
      or_num_def parseInt10_def is_js_space_def is_digit_def digits_val_def digit_val_def
      DEFAULT_POINTS_def)

lemma correctIndex_mkQuestion:
  "correctIndex (mkQuestion r) = spec_correctIndex (r ''correctIndex'')"
  by (auto simp: mkQuestion_def or_num_def spec_correctIndex_def max_def min_def
      split: option.splits)

lemma correctIndex_mkQuestion_range:
  "0 \<le> correctIndex (mkQuestion r) \<and> correctIndex (mkQuestion r) \<le> 3"
  by (simp add: mkQuestion_def)

text \<open>
  C8. The correct index of the question made from a record is the record's
  \<open>correctIndex\<close> column parsed as an integer, 1 when missing or non-numeric, clamped
  into 1..4 and made 0-based; it lies in 0..3, for the question of every record and so
  for every question of the produced sequence.
\<close>

theorem correctIndex_coercion:
  "correctIndex (mkQuestion r) = spec_correctIndex (r ''correctIndex'') \<and>
   0 \<le> correctIndex (mkQuestion r) \<and> correctIndex (mkQuestion r) \<le> 3 \<and>
   (\<forall>q \<in> set (csvToQuestions rs). 0 \<le> correctIndex q \<and> correctIndex q \<le> 3)"
  using correctIndex_mkQuestion correctIndex_mkQuestion_range
  by (auto simp: csvToQuestions_def)

theorem correctIndex_coercion_witness:
  "map correctIndex
     (csvToQuestions [csv_row [''Q'', ''a'', ''b'', ''c'', ''d'', ''3'', ''5''],
                      csv_row [''Q'', ''a'', ''b'', ''c'', ''d'', ''9'', ''5''],
                      csv_row [''Q'', ''a'', ''b'', ''c'', ''d'', ''0'', ''5''],
                      csv_row [''Q'', ''a'', ''b'', ''c'', ''d'', ''x'', ''5''],
                      csv_object [''question'', ''option1'', ''option2'', ''option3'', ''option4'']
                        [''Q'', ''a'', ''b'', ''c'', ''d'']]) = [2, 3, 0, 0, 0] \<and>
   spec_correctIndex (Some ''9'') = 3"
  using correctIndex_coercion
    [of "csv_row [''Q'', ''a'', ''b'', ''c'', ''d'', ''9'', ''5'']"
        "[csv_row [''Q'', ''a'', ''b'', ''c'', ''d'', ''3'', ''5''],
          csv_row [''Q'', ''a'', ''b'', ''c'', ''d'', ''9'', ''5''],
          csv_row [''Q'', ''a'', ''b'', ''c'', ''d'', ''0'', ''5''],
          csv_row [''Q'', ''a'', ''b'', ''c'', ''d'', ''x'', ''5''],
          csv_object [''question'', ''option1'', ''option2'', ''option3'', ''option4'']
            [''Q'', ''a'', ''b'', ''c'', ''d'']]"]
  by (simp add: csvToQuestions_def isValid_def csv_row_def csv_object_def mkQuestion_def or_empty_def
      or_num_def parseInt10_def is_js_space_def is_digit_def digits_val_def digit_val_def
      DEFAULT_POINTS_def spec_correctIndex_def)

lemma points_mkQuestion:
  "points (mkQuestion r) =
     (case parseInt10 (r ''points'') of None \<Rightarrow> 10 | Some n \<Rightarrow> if n = 0 then 10 else n)"
  by (simp add: mkQuestion_def or_num_def DEFAULT_POINTS_def split: option.splits)

text \<open>
  C3, as the code has it. The points of the question made from a record are the integer
  parse of the record's \<open>points\<close> column when that parse is a non-zero integer, and the
  default 10 when the column is missing, non-numeric or zero; a negative value is kept.
  So every produced question has a non-zero points value.
\<close>

theorem points_coercion:
  "points (mkQuestion r) =
     (case parseInt10 (r ''points'') of None \<Rightarrow> 10 | Some n \<Rightarrow> if n = 0 then 10 else n) \<and>
   points (mkQuestion r) \<noteq> 0 \<and>
   (\<forall>q \<in> set (csvToQuestions rs). points q \<noteq> 0)"
proof -
  have nz: "points (mkQuestion x) \<noteq> 0" for x
    by (simp add: points_mkQuestion split: option.splits)
  show ?thesis
    using nz by (auto simp: points_mkQuestion csvToQuestions_def)
qed

theorem points_coercion_witness:
  "map points
     (csvToQuestions [csv_row [''Q'', ''a'', ''b'', ''c'', ''d'', ''2'', ''25''],
                      csv_row [''Q'', ''a'', ''b'', ''c'', ''d'', ''2'', ''0''],
                      csv_row [''Q'', ''a'', ''b'', ''c'', ''d'', ''2'', ''many''],
                      csv_object [''question'', ''option1'', ''option2'', ''option3'', ''option4'']
                        [''Q'', ''a'', ''b'', ''c'', ''d'']]) = [25, 10, 10, 10]"
  using points_coercion
    [of "csv_row [''Q'', ''a'', ''b'', ''c'', ''d'', ''2'', ''25'']"
        "[csv_row [''Q'', ''a'', ''b'', ''c'', ''d'', ''2'', ''25''],
          csv_row [''Q'', ''a'', ''b'', ''c'', ''d'', ''2'', ''0''],
          csv_row [''Q'', ''a'', ''b'', ''c'', ''d'', ''2'', ''many''],
          csv_object [''question'', ''option1'', ''option2'', ''option3'', ''option4'']
            [''Q'', ''a'', ''b'', ''c'', ''d'']]"]
  by (simp add: csvToQuestions_def isValid_def csv_row_def csv_object_def mkQuestion_def or_empty_def
      or_num_def parseInt10_def is_js_space_def is_digit_def digits_val_def digit_val_def
      DEFAULT_POINTS_def)

text \<open>
  A record whose \<open>points\<close> column is \<open>-5\<close> is kept with the points value \<open>-5\<close>:
  a negative column is not replaced by the default, and the produced value is not positive.
\<close>

theorem points_negative_kept:
  "parseInt10 (Some ''-5'') = Some (- 5) \<and>
   map points (csvToQuestions [csv_row [''Q'', ''a'', ''b'', ''c'', ''d'', ''2'', ''-5'']]) = [- 5]"
  by (simp add: csvToQuestions_def isValid_def csv_row_def csv_object_def mkQuestion_def or_empty_def
      or_num_def parseInt10_def is_js_space_def is_digit_def digits_val_def digit_val_def
      DEFAULT_POINTS_def)

section \<open>Shuffle: permutation and frame\<close>

lemma random_index_range:
  assumes "unit_interval random" "0 \<le> i"
  shows "0 \<le> \<lfloor>random k * real_of_int (i + 1)\<rfloor> \<and> \<lfloor>random k * real_of_int (i + 1)\<rfloor> \<le> i"
proof -
  from assms(1) have r: "0 \<le> random k" "random k < 1" by (simp_all add: unit_interval_def)
  have pos: "0 < real_of_int (i + 1)" using assms(2) by simp
  have "0 \<le> random k * real_of_int (i + 1)" using r(1) pos by simp
  then have lo: "0 \<le> \<lfloor>random k * real_of_int (i + 1)\<rfloor>" by simp
  have "random k * real_of_int (i + 1) < 1 * real_of_int (i + 1)"
    using r(2) pos by (rule mult_strict_right_mono)
  then have "random k * real_of_int (i + 1) < real_of_int (i + 1)" by simp
  then have "\<lfloor>random k * real_of_int (i + 1)\<rfloor> < i + 1" by (simp only: floor_less_iff)
  with lo show ?thesis by simp
qed

lemma swap_elems_in_range:
  assumes "0 \<le> i" "i < int (length a)" "0 \<le> j" "j < int (length a)"
  shows "swap_elems a i j = a[nat i := a ! nat j, nat j := a ! nat i]"
  using assms by (simp add: swap_elems_def js_get_def js_set_def Let_def)

lemma mset_swap_elems:
  assumes "0 \<le> i" "i < int (length a)" "0 \<le> j" "j < int (length a)"
  shows "mset (swap_elems a i j) = mset a"
proof -
  have "nat i < length a" "nat j < length a" using assms by simp_all
  then show ?thesis
    by (simp add: swap_elems_in_range[OF assms] mset_swap)
qed

lemma length_swap_elems_in_range:
  assumes "0 \<le> i" "i < int (length a)" "0 \<le> j" "j < int (length a)"
  shows "length (swap_elems a i j) = length a"
  by (simp add: swap_elems_in_range[OF assms])

lemma length_shuffle_loop: "length (shuffle_loop random k a h n) = length h"
  by (induction n arbitrary: k h) (simp_all add: Let_def swap_at_def)

lemma shuffle_loop_frame: "b \<noteq> a \<Longrightarrow> shuffle_loop random k a h n ! b = h ! b"
  by (induction n arbitrary: k h) (simp_all add: Let_def swap_at_def)

lemma take_shuffle_loop: "take a (shuffle_loop random k a h n) = take a h"
  by (induction n arbitrary: k h) (simp_all add: Let_def swap_at_def)

lemma shuffle_loop_perm:
  assumes "unit_interval random" "a < length h" "n < length (h ! a)"
  shows "mset (shuffle_loop random k a h n ! a) = mset (h ! a)"
  using assms(2,3)
proof (induction n arbitrary: k h)
  case 0
  then show ?case by simp
next
  case (Suc n)
  define j where "j = \<lfloor>random k * real_of_int (int (Suc n) + 1)\<rfloor>"
  define h' where "h' = swap_at h a (int (Suc n)) j"
  have jr: "0 \<le> j" "j \<le> int (Suc n)"
    using random_index_range[OF assms(1), of "int (Suc n)" k] by (simp_all add: j_def)
  have ir: "0 \<le> int (Suc n)" "int (Suc n) < int (length (h ! a))" using Suc.prems by simp_all
  have jl: "j < int (length (h ! a))" using jr ir by linarith
  have cell: "h' ! a = swap_elems (h ! a) (int (Suc n)) j"
    using Suc.prems by (simp add: h'_def swap_at_def)
  have m: "mset (h' ! a) = mset (h ! a)"
    unfolding cell by (rule mset_swap_elems[OF ir jr(1) jl])
  have l: "length (h' ! a) = length (h ! a)"
    unfolding cell by (rule length_swap_elems_in_range[OF ir jr(1) jl])
  have "a < length h'" using Suc.prems by (simp add: h'_def swap_at_def)
  moreover have "n < length (h' ! a)" using Suc.prems l by simp
  ultimately have "mset (shuffle_loop random (Suc k) a h' n ! a) = mset (h' ! a)"
    by (rule Suc.IH)
  moreover have "shuffle_loop random k a h (Suc n) = shuffle_loop random (Suc k) a h' n"
    by (simp only: shuffle_loop.simps Let_def h'_def j_def)
  ultimately show ?case using m by simp
qed

text \<open>
  C5. With \<open>Math.random\<close> returning values from 0 up to, not including, 1, the array
  that \<open>shuffleArray\<close> returns holds the same elements as its argument, each as many
  times, and has the same length.
\<close>

theorem shuffleArray_permutation:
  assumes "unit_interval random" "arr < length h"
  shows "mset (fst (shuffleArray random h arr) ! snd (shuffleArray random h arr)) = mset (h ! arr) \<and>
         length (fst (shuffleArray random h arr) ! snd (shuffleArray random h arr)) = length (h ! arr)"
proof -
  let ?h1 = "h @ [h ! arr]"
  let ?a = "length h"
  have cell: "?h1 ! ?a = h ! arr" by simp
  have m: "mset (shuffle_loop random 0 ?a ?h1 (length (h ! arr) - 1) ! ?a) = mset (h ! arr)"
  proof (cases "h ! arr = []")
    case True
    then show ?thesis by simp
  next
    case False
    then have "length (h ! arr) - 1 < length (?h1 ! ?a)" by simp
    with shuffle_loop_perm[OF assms(1), of ?a ?h1 "length (h ! arr) - 1" 0]
    show ?thesis by simp
  qed
  have res: "fst (shuffleArray random h arr) ! snd (shuffleArray random h arr) =
             shuffle_loop random 0 ?a ?h1 (length (h ! arr) - 1) ! ?a"
    by (simp add: shuffleArray_def Let_def)
  show ?thesis
    unfolding res using m by (metis size_mset)
qed

theorem shuffleArray_permutation_witness:
  "unit_interval (\<lambda>k. 1 / 2) \<and> (0::nat) < length [[Some (1::nat), Some 2, Some 3]] \<and>
   fst (shuffleArray (\<lambda>k. 1 / 2) [[Some (1::nat), Some 2, Some 3]] 0) !
     snd (shuffleArray (\<lambda>k. 1 / 2) [[Some (1::nat), Some 2, Some 3]] 0) = [Some 1, Some 3, Some 2] \<and>
   mset [Some (1::nat), Some 3, Some 2] = mset [Some 1, Some 2, Some 3]"
proof -
  have u: "unit_interval (\<lambda>k. 1 / 2)" by (simp add: unit_interval_def)
  have l: "(0::nat) < length [[Some (1::nat), Some 2, Some 3]]" by simp
  have e: "fst (shuffleArray (\<lambda>k. 1 / 2) [[Some (1::nat), Some 2, Some 3]] 0) !
     snd (shuffleArray (\<lambda>k. 1 / 2) [[Some (1::nat), Some 2, Some 3]] 0) = [Some 1, Some 3, Some 2]"
    by (simp add: shuffleArray_def Let_def numeral_2_eq_2 swap_at_def swap_elems_def js_get_def js_set_def)
  show ?thesis using shuffleArray_permutation[OF u l] u e by simp
qed

text \<open>
  C10. \<open>shuffleArray\<close> leaves its argument as it was: the array at the argument's
  address holds the same elements in the same order after the call; so does every array
  that existed before the call, and the array returned is a new one.
\<close>

theorem shuffleArray_keeps_argument:
  assumes "arr < length h"
  shows "fst (shuffleArray random h arr) ! arr = h ! arr \<and>
         take (length h) (fst (shuffleArray random h arr)) = h \<and>
         snd (shuffleArray random h arr) \<noteq> arr"
  using assms
  by (simp add: shuffleArray_def Let_def shuffle_loop_frame take_shuffle_loop nth_append)

theorem shuffleArray_keeps_argument_witness:
  "(0::nat) < length [[Some (1::nat), Some 2, Some 3]] \<and>
   fst (shuffleArray (\<lambda>k. 1 / 2) [[Some (1::nat), Some 2, Some 3]] 0) =
     [[Some 1, Some 2, Some 3], [Some 1, Some 3, Some 2]]"
proof -
  have l: "(0::nat) < length [[Some (1::nat), Some 2, Some 3]]" by simp
  have e: "fst (shuffleArray (\<lambda>k. 1 / 2) [[Some (1::nat), Some 2, Some 3]] 0) =
     [[Some 1, Some 2, Some 3], [Some 1, Some 3, Some 2]]"
    by (simp add: shuffleArray_def Let_def numeral_2_eq_2 swap_at_def swap_elems_def js_get_def js_set_def)
  show ?thesis using shuffleArray_keeps_argument[OF l, of "\<lambda>k. 1 / 2"] e by simp
qed

section \<open>Standings: order and stability\<close>

lemma insert_by_compareRows:
  "insert_by compareRows x ys = insort_key (\<lambda>r. - score r) x ys"
  by (induction ys) (simp_all add: compareRows_def)

lemma js_sort_compareRows: "js_sort compareRows xs = sort_key (\<lambda>r. - score r) xs"
  by (induction xs) (simp_all add: js_sort_def insert_by_compareRows)

lemma standings_sorted: "sorted_wrt (\<lambda>a b. score b \<le> score a) (standings p)"
proof -
  have "sorted (map (\<lambda>r. - score r) (standings p))"
    by (simp add: standings_def js_sort_compareRows)
  then show ?thesis by (simp add: sorted_map)
qed

lemma standings_stable:
  "filter (\<lambda>r. score r = v) (standings p) = filter (\<lambda>r. score r = v) (map (mkRow p) (teams p))"
proof -
  have "filter (\<lambda>r. - score r = - v) (sort_key (\<lambda>r. - score r) (map (mkRow p) (teams p))) =
        filter (\<lambda>r. - score r = - v) (map (mkRow p) (teams p))"
    by (rule sort_key_stable)
  then show ?thesis by (simp add: standings_def js_sort_compareRows)
qed

lemma standings_mset: "mset (standings p) = mset (map (mkRow p) (teams p))"
  by (simp add: standings_def js_sort_compareRows)

lemma filter_eq_appendD:
  "filter P l = us @ vs \<Longrightarrow> \<exists>l1 l2. l = l1 @ l2 \<and> filter P l1 = us \<and> filter P l2 = vs"
proof (induction l arbitrary: us)
  case Nil
  then show ?case by simp
next
  case (Cons a l)
  show ?case
  proof (cases "P a")
    case False
    with Cons.prems have "filter P l = us @ vs" by simp
    from Cons.IH[OF this] obtain l1 l2 where "l = l1 @ l2" "filter P l1 = us" "filter P l2 = vs"
      by blast
    with False have "a # l = (a # l1) @ l2 \<and> filter P (a # l1) = us \<and> filter P l2 = vs"
      by simp
    then show ?thesis by blast
  next
    case True
    show ?thesis
    proof (cases us)
      case Nil
      with Cons.prems have "a # l = [] @ (a # l) \<and> filter P [] = us \<and> filter P (a # l) = vs"
        by simp
      then show ?thesis by blast
    next
      case (Cons u us')
      with True Cons.prems have au: "a = u" and "filter P l = us' @ vs" by simp_all
      from Cons.IH[OF this(2)] obtain l1 l2 where
        "l = l1 @ l2" "filter P l1 = us'" "filter P l2 = vs" by blast
      with True au Cons have "a # l = (a # l1) @ l2 \<and> filter P (a # l1) = us \<and> filter P l2 = vs"
        by simp
      then show ?thesis by blast
    qed
  qed
qed

lemma filter_two_in_order:
  assumes "filter P l = us @ x # vs @ y # ws"
  shows "\<exists>as bs cs. l = as @ x # bs @ y # cs"
proof -
  from assms obtain l1 l2 where l: "l = l1 @ l2" and l1: "filter P l1 = us"
    and l2: "filter P l2 = x # vs @ y # ws"
    using filter_eq_appendD by blast
  from l2 obtain a1 r1 where r1: "l2 = a1 @ x # r1" and f1: "filter P r1 = vs @ y # ws"
    by (auto simp: filter_eq_Cons_iff)
  from f1 obtain m1 m2 where m: "r1 = m1 @ m2" and m2: "filter P m2 = y # ws"
    using filter_eq_appendD by blast
  from m2 obtain a2 r2 where r2: "m2 = a2 @ y # r2"
    by (auto simp: filter_eq_Cons_iff)
  have "l = (l1 @ a1) @ x # (m1 @ a2) @ y # r2" by (simp add: l r1 m r2)
  then show ?thesis by blast
qed

lemma nth_two_in_order:
  assumes "i < j" "j < length l"
  shows "l = take i l @ l ! i # take (j - i - 1) (drop (Suc i) l) @ l ! j # drop (Suc j) l"
proof -
  have i: "i < length l" using assms by simp
  have 1: "l = take i l @ l ! i # drop (Suc i) l" using i by (simp add: id_take_nth_drop)
  let ?d = "drop (Suc i) l"
  have jj: "j - i - 1 < length ?d" using assms by simp
  have 2: "?d = take (j - i - 1) ?d @ ?d ! (j - i - 1) # drop (Suc (j - i - 1)) ?d"
    using jj by (rule id_take_nth_drop)
  have 3: "?d ! (j - i - 1) = l ! j" using assms by simp
  have 4: "drop (Suc (j - i - 1)) ?d = drop (Suc j) l" using assms by simp
  from 1 2 3 4 show ?thesis by metis
qed

lemma standings_tie_order:
  assumes "i < j" "j < length (teams p)"
    and "score (mkRow p (teams p ! i)) = score (mkRow p (teams p ! j))"
  shows "\<exists>as bs cs. standings p = as @ mkRow p (teams p ! i) # bs @ mkRow p (teams p ! j) # cs"
proof -
  let ?rows = "map (mkRow p) (teams p)"
  let ?x = "mkRow p (teams p ! i)" and ?y = "mkRow p (teams p ! j)"
  let ?P = "\<lambda>r. score r = score ?x"
  have jl: "j < length ?rows" using assms(2) by simp
  have xi: "?rows ! i = ?x" and yj: "?rows ! j = ?y" using assms(1,2) by simp_all
  have "?rows = take i ?rows @ ?x # take (j - i - 1) (drop (Suc i) ?rows) @ ?y # drop (Suc j) ?rows"
    using nth_two_in_order[OF assms(1) jl] xi yj by simp
  then obtain as bs cs where d: "?rows = as @ ?x # bs @ ?y # cs" by blast
  have "filter ?P ?rows = filter ?P as @ ?x # filter ?P bs @ ?y # filter ?P cs"
    using assms(3) by (subst d) simp
  then have "filter ?P (standings p) = filter ?P as @ ?x # filter ?P bs @ ?y # filter ?P cs"
    by (simp add: standings_stable)
  then show ?thesis by (rule filter_two_in_order)
qed

text \<open>
  C9. The standings are the teams' rows ordered by score, highest first; rows with equal
  scores keep the order in which their teams were entered (the rows of any one score
  appear as in the team list, and of two teams with equal scores the one entered earlier
  comes first). The rows are exactly the teams' rows, each with the team's name, score,
  answered count and correct count (0 where a tally is missing), and they are what the
  standings table shows.
\<close>

theorem standings_ranked_stable:
  "sorted_wrt (\<lambda>a b. score b \<le> score a) (standings p) \<and>
   mset (standings p) = mset (map (mkRow p) (teams p)) \<and>
   (\<forall>v. filter (\<lambda>r. score r = v) (standings p) =
        filter (\<lambda>r. score r = v) (map (mkRow p) (teams p))) \<and>
   (\<forall>i j. i < j \<and> j < length (teams p) \<and>
          score (mkRow p (teams p ! i)) = score (mkRow p (teams p ! j)) \<longrightarrow>
          (\<exists>as bs cs. standings p =
             as @ mkRow p (teams p ! i) # bs @ mkRow p (teams p ! j) # cs)) \<and>
   (\<forall>t. mkRow p t =
          \<lparr> row_id = team_id t, row_name = team_name t,
            score = num_or0 (scores p (team_id t)),
            answered = or_num (answeredCount p (team_id t)) 0,
            correct = or_num (correctCount p (team_id t)) 0 \<rparr>) \<and>
   standingsBody (renderStandings p) = standings p"
  using standings_sorted[of p] standings_mset[of p] standings_stable[of _ p]
    standings_tie_order[of _ _ p]
  by (simp add: mkRow_def renderStandings_def Let_def)

theorem standings_ranked_stable_witness:
  "(0::nat) < 2 \<and>
   2 < length (teams (run [StartClick [''Red'', ''Blue'', ''Green''],
                           OptionClick 0, TeamClick ''team-0'', SubmitClick, NextClick,
                           OptionClick 0, TeamClick ''team-2'', SubmitClick]
                        (loaded_page [sample_q1, sample_q1] True))) \<and>
   standings (run [StartClick [''Red'', ''Blue'', ''Green''],
                   OptionClick 0, TeamClick ''team-0'', SubmitClick, NextClick,
                   OptionClick 0, TeamClick ''team-2'', SubmitClick]
                (loaded_page [sample_q1, sample_q1] True)) =
     [\<lparr>row_id = ''team-0'', row_name = ''Red'', score = 10, answered = 1, correct = 1\<rparr>,
      \<lparr>row_id = ''team-2'', row_name = ''Green'', score = 10, answered = 1, correct = 1\<rparr>,
      \<lparr>row_id = ''team-1'', row_name = ''Blue'', score = 0, answered = 0, correct = 0\<rparr>] \<and>
   (\<exists>as bs cs.
      standings (run [StartClick [''Red'', ''Blue'', ''Green''],
                      OptionClick 0, TeamClick ''team-0'', SubmitClick, NextClick,
                      OptionClick 0, TeamClick ''team-2'', SubmitClick]
                   (loaded_page [sample_q1, sample_q1] True)) =
      as @ \<lparr>row_id = ''team-0'', row_name = ''Red'', score = 10, answered = 1, correct = 1\<rparr> #
      bs @ \<lparr>row_id = ''team-2'', row_name = ''Green'', score = 10, answered = 1, correct = 1\<rparr> # cs)"
proof -
  let ?p = "run [StartClick [''Red'', ''Blue'', ''Green''],
                 OptionClick 0, TeamClick ''team-0'', SubmitClick, NextClick,
                 OptionClick 0, TeamClick ''team-2'', SubmitClick]
              (loaded_page [sample_q1, sample_q1] True)"
  have l: "2 < length (teams ?p)" by code_simp
  have r0: "mkRow ?p (teams ?p ! 0) =
      \<lparr>row_id = ''team-0'', row_name = ''Red'', score = 10, answered = 1, correct = 1\<rparr>"
    by code_simp
  have r2: "mkRow ?p (teams ?p ! 2) =
      \<lparr>row_id = ''team-2'', row_name = ''Green'', score = 10, answered = 1, correct = 1\<rparr>"
    by code_simp
  have e: "standings ?p =
     [\<lparr>row_id = ''team-0'', row_name = ''Red'', score = 10, answered = 1, correct = 1\<rparr>,
      \<lparr>row_id = ''team-2'', row_name = ''Green'', score = 10, answered = 1, correct = 1\<rparr>,
      \<lparr>row_id = ''team-1'', row_name = ''Blue'', score = 0, answered = 0, correct = 0\<rparr>]"
    by code_simp
  have tie: "score (mkRow ?p (teams ?p ! 0)) = score (mkRow ?p (teams ?p ! 2))"
    unfolding r0 r2 by simp
  have lt: "(0::nat) < 2" by simp
  from standings_ranked_stable[of ?p] lt l tie
  have "\<exists>as bs cs. standings ?p = as @ mkRow ?p (teams ?p ! 0) # bs @ mkRow ?p (teams ?p ! 2) # cs"
    by blast
  then have "\<exists>as bs cs. standings ?p =
      as @ \<lparr>row_id = ''team-0'', row_name = ''Red'', score = 10, answered = 1, correct = 1\<rparr> #
      bs @ \<lparr>row_id = ''team-2'', row_name = ''Green'', score = 10, answered = 1, correct = 1\<rparr> # cs"
    unfolding r0 r2 .
  with lt l e show ?thesis by blast
qed

section \<open>Progress of the current index\<close>

lemma confirmScore_frame:
  "currentIndex (settled (confirmScore p)) = currentIndex p \<and>
   questions (settled (confirmScore p)) = questions p \<and>
   quizStarted (settled (confirmScore p)) = quizStarted p"
  by (simp add: confirmScore_def settled_def renderStandings_def Let_def split: option.splits)

lemma checkSubmitButtonState_frame:
  "currentIndex (checkSubmitButtonState p) = currentIndex p \<and>
   questions (checkSubmitButtonState p) = questions p \<and>
   quizStarted (checkSubmitButtonState p) = quizStarted p"
  by (simp add: checkSubmitButtonState_def)

lemma goToNextQuestion_frame:
  "questions (settled (goToNextQuestion p)) = questions p \<and>
   quizStarted (settled (goToNextQuestion p)) = quizStarted p"
  by (simp add: goToNextQuestion_def renderQuestion_def endQuiz_def clearOptionsUI_def
      settled_def Let_def)

lemma goToNextQuestion_currentIndex:
  "currentIndex (settled (goToNextQuestion p)) =
     (if quizStarted p \<and> questions p \<noteq> [] \<and> currentIndex p + 1 < int (length (questions p))
      then currentIndex p + 1 else currentIndex p)"
  by (simp add: goToNextQuestion_def renderQuestion_def endQuiz_def clearOptionsUI_def
      settled_def Let_def)

lemma step_inProgress_frame:
  assumes "inProgressOp e"
  shows "questions (step e p) = questions p \<and> quizStarted (step e p) = quizStarted p"
  using assms
  by (cases e)
     (simp_all add: goToNextQuestion_frame confirmScore_frame checkSubmitButtonState_frame
        optionClick_def teamClick_def)

lemma step_inProgress_currentIndex:
  assumes "inProgressOp e"
  shows "currentIndex (step e p) =
           (if e = NextClick \<and> quizStarted p \<and> questions p \<noteq> [] \<and>
               currentIndex p + 1 < int (length (questions p))
            then currentIndex p + 1 else currentIndex p)"
  using assms
  by (cases e)
     (simp_all add: goToNextQuestion_currentIndex confirmScore_frame
        checkSubmitButtonState_frame optionClick_def teamClick_def)

lemma run_Cons: "run (e # es) p = run es (step e p)"
  by (simp add: run_def)

lemma run_inProgress:
  assumes "list_all inProgressOp es"
    and "currentIndex p < int (length (questions p))"
  shows "currentIndex p \<le> currentIndex (run es p) \<and>
         currentIndex (run es p) < int (length (questions p)) \<and>
         questions (run es p) = questions p \<and>
         quizStarted (run es p) = quizStarted p"
  using assms
proof (induction es arbitrary: p)
  case Nil
  then show ?case by (simp add: run_def)
next
  case (Cons e es)
  from Cons.prems have e: "inProgressOp e" and es: "list_all inProgressOp es" by simp_all
  note f = step_inProgress_frame[OF e, of p]
  note c = step_inProgress_currentIndex[OF e, of p]
  have up: "currentIndex p \<le> currentIndex (step e p)" using c by simp
  have bd: "currentIndex (step e p) < int (length (questions (step e p)))"
    using c f Cons.prems(2) by (simp split: if_splits)
  from Cons.IH[OF es bd] f up show ?case by (simp add: run_Cons)
qed

text \<open>
  C6, as the code has it. From a quiz in progress (started, with a current question),
  along every sequence of option choices, team choices, submissions and advances the
  current index does not decrease and stays at most the number of questions minus one;
  the questions stay the same and the quiz stays started. Advancing adds exactly one when
  a next question exists and changes nothing otherwise; the other three operations leave
  the index as it is. Clicks on the start and reset buttons are not among these
  operations.
\<close>

theorem currentIndex_monotonic:
  assumes "list_all inProgressOp es"
    and "quizStarted p"
    and "0 \<le> currentIndex p"
    and "currentIndex p < int (length (questions p))"
  shows "currentIndex p \<le> currentIndex (run es p) \<and>
         currentIndex (run es p) \<le> int (length (questions (run es p))) - 1 \<and>
         questions (run es p) = questions p \<and>
         quizStarted (run es p) \<and>
         currentIndex (step NextClick p) =
           (if currentIndex p + 1 < int (length (questions p))
            then currentIndex p + 1 else currentIndex p) \<and>
         (\<forall>e. inProgressOp e \<and> e \<noteq> NextClick \<longrightarrow> currentIndex (step e p) = currentIndex p)"
proof -
  have ne: "questions p \<noteq> []" using assms(3,4) by auto
  have nxt: "currentIndex (step NextClick p) =
           (if currentIndex p + 1 < int (length (questions p))
            then currentIndex p + 1 else currentIndex p)"
    using step_inProgress_currentIndex[of NextClick p] assms(2) ne by simp
  have oth: "\<forall>e. inProgressOp e \<and> e \<noteq> NextClick \<longrightarrow> currentIndex (step e p) = currentIndex p"
    using step_inProgress_currentIndex by simp
  from run_inProgress[OF assms(1,4)] assms(2) nxt oth show ?thesis by simp
qed

theorem currentIndex_monotonic_witness:
  "list_all inProgressOp [NextClick, OptionClick 3, TeamClick ''team-1'', SubmitClick, NextClick] \<and>
   quizStarted answered_once \<and>
   currentIndex answered_once = 0 \<and>
   length (questions answered_once) = 2 \<and>
   currentIndex (step NextClick answered_once) = 1 \<and>
   currentIndex (run [NextClick, OptionClick 3, TeamClick ''team-1'', SubmitClick, NextClick]
                   answered_once) = 1"
proof -
  let ?es = "[NextClick, OptionClick 3, TeamClick ''team-1'', SubmitClick, NextClick]"
  have a: "list_all inProgressOp ?es" by simp
  have b: "quizStarted answered_once" by code_simp
  have c: "currentIndex answered_once = 0" by code_simp
  have d: "length (questions answered_once) = 2" by code_simp
  have e: "currentIndex (run ?es answered_once) = 1" by code_simp
  have c0: "0 \<le> currentIndex answered_once" using c by simp
  have c1: "currentIndex answered_once < int (length (questions answered_once))"
    using c d by simp
  from currentIndex_monotonic[OF a b c0 c1]
  have "currentIndex (step NextClick answered_once) =
          (if currentIndex answered_once + 1 < int (length (questions answered_once))
           then currentIndex answered_once + 1 else currentIndex answered_once)"
    by blast
  then have f: "currentIndex (step NextClick answered_once) = 1"
    unfolding c d by simp
  from a b c d e f show ?thesis by blast
qed

text \<open>
  The start handler does not look at \<open>quizStarted\<close>: with the quiz in progress at the
  second question (index 1), a click on the start button leaves the quiz started and puts
  the index back to 0.
\<close>

theorem start_click_restarts:
  "quizStarted (run [NextClick] answered_once) \<and>
   currentIndex (run [NextClick] answered_once) = 1 \<and>
   quizStarted (run [NextClick, StartClick [''Red'']] answered_once) \<and>
   currentIndex (run [NextClick, StartClick [''Red'']] answered_once) = 0"
  by code_simp

section \<open>Start, reset and repeated submission\<close>

lemma foldl_map_upd:
  "foldl (\<lambda>m t. m(f t \<mapsto> c)) m0 ts k = (if k \<in> f ` set ts then Some c else m0 k)"
  by (induction ts arbitrary: m0) auto

lemma startQuiz_started:
  assumes "filter (\<lambda>n. n \<noteq> []) (map js_trim inputs) \<noteq> []" and "questions p \<noteq> []"
  shows "quizStarted (settled (startQuiz inputs p)) \<and>
         currentIndex (settled (startQuiz inputs p)) = 0 \<and>
         questions (settled (startQuiz inputs p)) = questions p \<and>
         map team_name (teams (settled (startQuiz inputs p))) =
           filter (\<lambda>n. n \<noteq> []) (map js_trim inputs) \<and>
         (\<forall>t \<in> set (teams (settled (startQuiz inputs p))).
            scores (settled (startQuiz inputs p)) (team_id t) = Some (Num 0) \<and>
            answeredCount (settled (startQuiz inputs p)) (team_id t) = Some 0 \<and>
            correctCount (settled (startQuiz inputs p)) (team_id t) = Some 0)"
proof -
  have "0 < length (questions p)" using assms(2) by simp
  then show ?thesis
    using assms
    by (simp add: startQuiz_def goToNextQuestion_def renderQuestion_def settled_def
        renderStandings_def buildTeamButtons_def Let_def foldl_map_upd
        map_snd_enumerate comp_def case_prod_unfold)
qed

text \<open>
  After a reset, until the next start, no event changes the tallies or fills the standings
  table; a successful start sets the tallies of every team to zero
  (\<open>startQuiz_started\<close>).
\<close>

lemma idle_resetQuiz: "idle (resetQuiz True p)"
  by (simp add: idle_def resetQuiz_def clearOptionsUI_def Let_def)

lemma step_idle:
  assumes "idle p" "notStart e"
  shows "idle (step e p) \<and> scores (step e p) = scores p \<and>
         answeredCount (step e p) = answeredCount p \<and>
         correctCount (step e p) = correctCount p \<and>
         standingsBody (step e p) = (if e = ResetClick True then [] else standingsBody p)"
  using assms
  by (cases e)
     (auto simp: idle_def resetQuiz_def clearOptionsUI_def Let_def goToNextQuestion_def
        settled_def teamClick_def checkSubmitButtonState_def confirmScore_def)

lemma run_idle:
  assumes "idle p" "list_all notStart es" "standingsBody p = []"
  shows "idle (run es p) \<and> scores (run es p) = scores p \<and>
         answeredCount (run es p) = answeredCount p \<and>
         correctCount (run es p) = correctCount p \<and>
         standingsBody (run es p) = []"
  using assms
proof (induction es arbitrary: p)
  case Nil
  then show ?case by (simp add: run_def)
next
  case (Cons e es)
  from Cons.prems have e: "notStart e" and es: "list_all notStart es" by simp_all
  note s = step_idle[OF Cons.prems(1) e]
  have b: "standingsBody (step e p) = []" using s Cons.prems(3) by simp
  from Cons.IH[OF _ es b] s show ?case by (simp add: run_def)
qed

text \<open>
  What the reset handler assigns and what it leaves: the index, the selections, the
  started flag and the standings table are cleared; the questions, the team list and the
  three tally mappings are as before.
\<close>

lemma resetQuiz_effect:
  "currentIndex (resetQuiz True p) = - 1 \<and>
   selectedOptionIndex (resetQuiz True p) = None \<and>
   selectedTeamId (resetQuiz True p) = None \<and>
   \<not> quizStarted (resetQuiz True p) \<and>
   standingsBody (resetQuiz True p) = [] \<and>
   questions (resetQuiz True p) = questions p \<and>
   teams (resetQuiz True p) = teams p \<and>
   scores (resetQuiz True p) = scores p \<and>
   answeredCount (resetQuiz True p) = answeredCount p \<and>
   correctCount (resetQuiz True p) = correctCount p"
  by (simp add: resetQuiz_def clearOptionsUI_def Let_def)

text \<open>
  C2. The claim is that a reset clears every tally. The handler asks
  "Reset quiz, scores, and question position?" and the start handler sets every tally to
  zero, but the reset handler assigns none of the three mappings: after Red's correct
  answer for 10 points, a confirmed reset leaves Red's score at 10 and Red's answered and
  correct counts at 1.
\<close>

theorem resetQuiz_keeps_tallies:
  "scores (resetQuiz True answered_once) ''team-0'' = Some (Num 10) \<and>
   answeredCount (resetQuiz True answered_once) ''team-0'' = Some 1 \<and>
   correctCount (resetQuiz True answered_once) ''team-0'' = Some 1"
  by code_simp

text \<open>
  C1. The claim is that a second submission for the same question changes nothing. On the
  page, after Red's answer to the first question is submitted (score 10, one answered,
  one correct, submit button disabled), a click on Red's team button enables the submit
  button again, and the second submission scores the same question again: score 20, two
  answered, two correct, with the current index still 0.
\<close>

theorem submit_again_scores_again:
  "currentIndex answered_once = 0 \<and>
   submitDisabled answered_once \<and>
   scores answered_once ''team-0'' = Some (Num 10) \<and>
   answeredCount answered_once ''team-0'' = Some 1 \<and>
   correctCount answered_once ''team-0'' = Some 1 \<and>
   currentIndex (run [TeamClick ''team-0'', SubmitClick] answered_once) = 0 \<and>
   scores (run [TeamClick ''team-0'', SubmitClick] answered_once) ''team-0'' = Some (Num 20) \<and>
   answeredCount (run [TeamClick ''team-0'', SubmitClick] answered_once) ''team-0'' = Some 2 \<and>
   correctCount (run [TeamClick ''team-0'', SubmitClick] answered_once) ''team-0'' = Some 2"
  by code_simp

text \<open>
  C4. The claim is that a team's answered count is at most the current index plus one. On
  the page, Blue's wrong answer to the first question can be submitted three times (each
  click on the team button enables the submit button again): the answered count is 3
  while the current index is 0.
\<close>

theorem answered_more_than_presented:
  "currentIndex (run [StartClick [''Red'', ''Blue''],
                      OptionClick 1, TeamClick ''team-1'', SubmitClick,
                      TeamClick ''team-1'', SubmitClick,
                      TeamClick ''team-1'', SubmitClick]
                   (loaded_page [sample_q1, sample_q2] True)) = 0 \<and>
   answeredCount (run [StartClick [''Red'', ''Blue''],
                       OptionClick 1, TeamClick ''team-1'', SubmitClick,
                       TeamClick ''team-1'', SubmitClick,
                       TeamClick ''team-1'', SubmitClick]
                    (loaded_page [sample_q1, sample_q2] True)) ''team-1'' = Some 3"
  by code_simp

text \<open>
  The earlier revision of the page has the same gap: its team buttons call
  \<open>maybeScore\<close>, so a second click on a team button scores the question again.
\<close>

lemma maybeScore_again_scores_again:
  "answeredCount
     (settled (teamClick_maybeScore ''team-0''
        (run [StartClick [''Red'', ''Blue''], OptionClick 0]
           (loaded_page [sample_q1, sample_q2] True)))) ''team-0'' = Some 1 \<and>
   answeredCount
     (settled (teamClick_maybeScore ''team-0''
        (settled (teamClick_maybeScore ''team-0''
           (run [StartClick [''Red'', ''Blue''], OptionClick 0]
              (loaded_page [sample_q1, sample_q2] True)))))) ''team-0'' = Some 2"
  by code_simp


end
